theory Spec2Isabelle
  imports Main "HOL-Library.AList"
begin

section \<open>OwLiteSettings: the file-backed settings store\<close>

text \<open>
  The development embeds \<^verbatim>\<open>src/owlite_core/owlite_settings.py\<close>. The class
  \<^verbatim>\<open>OwLiteSettings\<close> keeps four files under one cache directory (\<^verbatim>\<open>tokens\<close>,
  \<^verbatim>\<open>devices\<close>, \<^verbatim>\<open>connected\<close>, \<^verbatim>\<open>urls\<close>) and re-reads them on every access. Its
  methods are modelled as functions on an explicit store: the content of the four files
  together with the trace of the effects performed so far (file writes, file deletions,
  warnings). A raised exception is the \<open>Inl\<close> branch of a sum; the store is returned
  in both branches, since a method that raises may already have written a file.
\<close>

subsection \<open>Domain values\<close>

text \<open>
  Modelled from the spec: the four domain classes \<^verbatim>\<open>Tokens\<close>, \<^verbatim>\<open>DeviceManager\<close>,
  \<^verbatim>\<open>Device\<close> and \<^verbatim>\<open>BaseURLs\<close> are imported from the package and their
  declarations are not part of the sources at hand. The spec describes them as plain records:
  a credential pair, a name with an endpoint address, a manager with a selected device, and
  the named service endpoints with the field \<^verbatim>\<open>NEST\<close> that the settings read. An instance
  of such a class is truthy in a Python condition.
\<close>

record tokens =
  access_token :: string
  refresh_token :: string

record device_manager =
  name :: string
  url :: string

record device =
  device_name :: string
  manager :: device_manager

record base_urls =
  FRONT :: string
  MAIN :: string
  DOVE :: string
  NEST :: string

text \<open>
  The values a decoded file can hold: the JSON values and the four tagged domain values.
  A Python \<^verbatim>\<open>dict\<close> keeps its keys in insertion order, so it is an association list.
\<close>

datatype pyval =
    VNone
  | VBool bool
  | VInt int
  | VStr string
  | VList "pyval list"
  | VDict "(string \<times> pyval) list"
  | VTokens tokens
  | VManager device_manager
  | VDevice device
  | VBaseURLs base_urls

datatype error =
    JSONDecodeError
  | AssertionError
  | KeyError string
  | AttributeError
  | TypeError

subsection \<open>Files, the codec and the store\<close>

datatype path = Tokens_cache | Devices_cache | Connected_cache | Urls_cache

text \<open>
  Modelled from the spec: the codec (\<^verbatim>\<open>ClassEncoder\<close>, \<^verbatim>\<open>ClassDecoder\<close>) is imported
  from the package and is not among the sources. The spec assumes that it round-trips tagged
  domain values and that malformed content makes the decoder raise. The text of a file is
  therefore modelled up to the codec: \<open>Blank\<close> is the zero-length text, \<open>Malformed\<close> a
  non-empty text that the decoder rejects, and \<open>Encoded v\<close> a text that decodes to \<open>v\<close>,
  which is also what the encoder produces for \<open>v\<close>.
\<close>

datatype ftext = Blank | Malformed | Encoded pyval

definition json_dumps :: "pyval \<Rightarrow> ftext" where
  "json_dumps v = Encoded v"

fun json_loads :: "ftext \<Rightarrow> error + pyval" where
  "json_loads Blank = Inl JSONDecodeError"
| "json_loads Malformed = Inl JSONDecodeError"
| "json_loads (Encoded v) = Inr v"

text \<open>Truthiness of a Python \<^verbatim>\<open>str\<close>: only the empty string is falsy.\<close>

fun str_truthy :: "ftext \<Rightarrow> bool" where
  "str_truthy Blank = False"
| "str_truthy Malformed = True"
| "str_truthy (Encoded v) = True"

datatype event =
    Wrote path ftext
  | Unlinked path
  | Warned string

record store =
  files :: "path \<Rightarrow> ftext option"
  trace :: "event list"

text \<open>
  Modelled from the spec: \<^verbatim>\<open>read_text\<close> is imported from the package; per the spec an
  absent file reads as \<^verbatim>\<open>None\<close> and a present file as its text.
\<close>

definition read_text :: "store \<Rightarrow> path \<Rightarrow> ftext option" where
  "read_text s p = files s p"

text \<open>\<^verbatim>\<open>Path.write_text\<close> overwrites the file; \<^verbatim>\<open>Path.unlink(missing_ok=True)\<close>
  deletes it and does nothing on an absent file.\<close>

definition write_text :: "path \<Rightarrow> ftext \<Rightarrow> store \<Rightarrow> store" where
  "write_text p t s = s\<lparr>files := (files s)(p \<mapsto> t), trace := trace s @ [Wrote p t]\<rparr>"

definition unlink :: "path \<Rightarrow> store \<Rightarrow> store" where
  "unlink p s = s\<lparr>files := (files s)(p := None), trace := trace s @ [Unlinked p]\<rparr>"

definition log_warning :: "string \<Rightarrow> store \<Rightarrow> store" where
  "log_warning msg s = s\<lparr>trace := trace s @ [Warned msg]\<rparr>"

subsection \<open>Tokens\<close>

text \<open>The getter \<^verbatim>\<open>tokens\<close> (lines 32 to 43): a falsy text, absent or empty, gives
  \<^verbatim>\<open>None\<close>; anything else is decoded.\<close>

definition tokens_get :: "store \<Rightarrow> error + pyval" where
  "tokens_get s =
     (case read_text s Tokens_cache of
        None \<Rightarrow> Inr VNone
      | Some read_tokens \<Rightarrow>
          if \<not> str_truthy read_tokens then Inr VNone else json_loads read_tokens)"

text \<open>The setter \<^verbatim>\<open>tokens\<close> (lines 45 to 56).\<close>

definition tokens_set :: "tokens option \<Rightarrow> store \<Rightarrow> store" where
  "tokens_set new_tokens s =
     (case new_tokens of
        Some t \<Rightarrow> write_text Tokens_cache (json_dumps (VTokens t)) s
      | None \<Rightarrow> unlink Tokens_cache s)"

subsection \<open>Base URLs\<close>

text \<open>
  The getter \<^verbatim>\<open>base_url\<close> (lines 145 to 158). The built-in default \<^verbatim>\<open>BaseURLs()\<close>
  is declared outside the sources, so it is the parameter \<open>dflt\<close>.
\<close>

definition base_url_get :: "base_urls \<Rightarrow> store \<Rightarrow> error + pyval" where
  "base_url_get dflt s =
     (case read_text s Urls_cache of
        None \<Rightarrow> Inr (VBaseURLs dflt)
      | Some base_urls \<Rightarrow>
          if \<not> str_truthy base_urls then Inr (VBaseURLs dflt) else json_loads base_urls)"


subsection \<open>The connected device\<close>

text \<open>The setter \<^verbatim>\<open>connected_device\<close> (lines 131 to 143).\<close>

definition connected_device_set :: "device option \<Rightarrow> store \<Rightarrow> store" where
  "connected_device_set dev s =
     (case dev of
        Some d \<Rightarrow> write_text Connected_cache (json_dumps (VDevice d)) s
      | None \<Rightarrow> unlink Connected_cache s)"

fun isinstance_Device :: "pyval \<Rightarrow> bool" where
  "isinstance_Device (VDevice d) = True"
| "isinstance_Device v = False"

definition outdated_msg :: string where
  "outdated_msg =
     ''Your device connection is outdated. Please retry `owlite device connect --name (name)`''"

text \<open>The getter \<^verbatim>\<open>connected_device\<close> (lines 114 to 129): a decoded value that is
  not a \<^verbatim>\<open>Device\<close> is reported, the file is purged through the setter, and the value is
  returned all the same.\<close>

definition connected_device_get :: "store \<Rightarrow> (error + pyval) \<times> store" where
  "connected_device_get s =
     (case read_text s Connected_cache of
        None \<Rightarrow> (Inr VNone, s)
      | Some connected_device \<Rightarrow>
          if str_truthy connected_device then
            (case json_loads connected_device of
               Inl e \<Rightarrow> (Inl e, s)
             | Inr dev \<Rightarrow>
                 if \<not> isinstance_Device dev
                 then (Inr dev, connected_device_set None (log_warning outdated_msg s))
                 else (Inr dev, s))
          else (Inr VNone, s))"

subsection \<open>Python dictionaries\<close>

type_synonym pydict = "(string \<times> pyval) list"

text \<open>\<^verbatim>\<open>d.pop(k, None)\<close>: the key is dropped, an absent key is no error.\<close>

definition dict_pop_default :: "string \<Rightarrow> pydict \<Rightarrow> pydict" where
  "dict_pop_default k d = AList.delete k d"

text \<open>\<^verbatim>\<open>d.pop(k)\<close>: an absent key raises \<^verbatim>\<open>KeyError\<close>.\<close>

definition dict_pop :: "string \<Rightarrow> pydict \<Rightarrow> error + pydict" where
  "dict_pop k d = (if map_of d k = None then Inl (KeyError k) else Inr (AList.delete k d))"

text \<open>\<^verbatim>\<open>d[k] = v\<close>: a present key keeps its position, a new key goes last.\<close>

definition dict_setitem :: "string \<Rightarrow> pyval \<Rightarrow> pydict \<Rightarrow> pydict" where
  "dict_setitem k v d = AList.update k v d"

text \<open>\<^verbatim>\<open>d.update(other)\<close>: the entries of \<open>other\<close> are stored one by one.\<close>

definition dict_update :: "pydict \<Rightarrow> pydict \<Rightarrow> pydict" where
  "dict_update d other = fold (\<lambda>(k, v). dict_setitem k v) other d"

text \<open>\<^verbatim>\<open>bool(d)\<close>: a dictionary is truthy when it has an entry.\<close>

definition dict_truthy :: "pydict \<Rightarrow> bool" where
  "dict_truthy d = (d \<noteq> [])"

subsection \<open>Device managers\<close>

text \<open>The body of the migration loop (lines 69 to 72): a value that is a \<^verbatim>\<open>str\<close>
  is rebuilt into a \<^verbatim>\<open>DeviceManager\<close> under the same key.\<close>

fun rebuild_entry :: "string \<times> pyval \<Rightarrow> string \<times> pyval" where
  "rebuild_entry (key, VStr value) = (key, VManager \<lparr>name = key, url = value\<rparr>)"
| "rebuild_entry (key, value) = (key, value)"

text \<open>The mapping that \<^verbatim>\<open>_backward_compatibility\<close> computes (lines 67 to 72).\<close>

definition migrate :: "pydict \<Rightarrow> pydict" where
  "migrate d = map rebuild_entry (dict_pop_default ''NEST'' (dict_pop_default ''DEFAULT'' d))"

text \<open>
  \<^verbatim>\<open>_backward_compatibility\<close> (lines 66 to 74). The decoded value need not be a
  dictionary: \<^verbatim>\<open>pop\<close> with two arguments is a \<^verbatim>\<open>TypeError\<close> on a list and an
  \<^verbatim>\<open>AttributeError\<close> on every other value. On a dictionary the migrated mapping is
  written back whether or not the migration changed anything.
\<close>

fun backward_compatibility :: "pyval \<Rightarrow> store \<Rightarrow> (error + pydict) \<times> store" where
  "backward_compatibility (VDict d) s =
     (Inr (migrate d), write_text Devices_cache (json_dumps (VDict (migrate d))) s)"
| "backward_compatibility (VList xs) s = (Inl TypeError, s)"
| "backward_compatibility v s = (Inl AttributeError, s)"

text \<open>The attribute \<^verbatim>\<open>NEST\<close> of the value that \<^verbatim>\<open>base_url\<close> returned.\<close>

fun attr_NEST :: "pyval \<Rightarrow> error + string" where
  "attr_NEST (VBaseURLs b) = Inr (NEST b)"
| "attr_NEST v = Inl AttributeError"

text \<open>The getter \<^verbatim>\<open>managers\<close> (lines 58 to 87).\<close>

definition managers :: "base_urls \<Rightarrow> store \<Rightarrow> (error + pydict) \<times> store" where
  "managers dflt s =
     (case base_url_get dflt s of
        Inl e \<Rightarrow> (Inl e, s)
      | Inr bu \<Rightarrow>
          (case attr_NEST bu of
             Inl e \<Rightarrow> (Inl e, s)
           | Inr nest \<Rightarrow>
               let default_manager = VManager \<lparr>name = ''NEST'', url = nest\<rparr>;
                   registered_managers = [(''NEST'', default_manager)]
               in (case read_text s Devices_cache of
                     None \<Rightarrow> (Inr registered_managers, s)
                   | Some cache_content \<Rightarrow>
                       (case json_loads cache_content of
                          Inl e \<Rightarrow> (Inl e, s)
                        | Inr decoded \<Rightarrow>
                            (case backward_compatibility decoded s of
                               (Inl e, s') \<Rightarrow> (Inl e, s')
                             | (Inr cached_managers, s') \<Rightarrow>
                                 if \<not> dict_truthy cached_managers
                                 then (Inl AssertionError, s')
                                 else (Inr (dict_update registered_managers cached_managers),
                                       s'))))))"

text \<open>\<^verbatim>\<open>add_manager\<close> (lines 89 to 98).\<close>

definition add_manager :: "base_urls \<Rightarrow> device_manager \<Rightarrow> store \<Rightarrow> (error + unit) \<times> store" where
  "add_manager dflt m s =
     (case managers dflt s of
        (Inl e, s') \<Rightarrow> (Inl e, s')
      | (Inr manager_dict, s') \<Rightarrow>
          (case dict_pop ''NEST'' (dict_setitem (name m) (VManager m) manager_dict) of
             Inl e \<Rightarrow> (Inl e, s')
           | Inr manager_dict' \<Rightarrow>
               (Inr (), write_text Devices_cache (json_dumps (VDict manager_dict')) s')))"

text \<open>\<^verbatim>\<open>remove_manager\<close> (lines 100 to 112).\<close>

definition remove_manager :: "base_urls \<Rightarrow> string \<Rightarrow> store \<Rightarrow> (error + unit) \<times> store" where
  "remove_manager dflt nm s =
     (case managers dflt s of
        (Inl e, s') \<Rightarrow> (Inl e, s')
      | (Inr manager_dict, s') \<Rightarrow>
          (case dict_pop ''NEST'' (dict_pop_default nm manager_dict) of
             Inl e \<Rightarrow> (Inl e, s')
           | Inr manager_dict' \<Rightarrow>
               if dict_truthy manager_dict'
               then (Inr (), write_text Devices_cache (json_dumps (VDict manager_dict')) s')
               else (Inr (), unlink Devices_cache s')))"

subsection \<open>Sequences of operations\<close>




subsection \<open>What the devices file holds\<close>

text \<open>The mapping stored in the devices file, when the file holds a dictionary.\<close>

definition stored_managers :: "store \<Rightarrow> pydict option" where
  "stored_managers s =
     (case files s Devices_cache of
        Some (Encoded (VDict d)) \<Rightarrow> Some d
      | _ \<Rightarrow> None)"

definition on_disk_key :: "string \<Rightarrow> store \<Rightarrow> bool" where
  "on_disk_key k s = (case stored_managers s of Some d \<Rightarrow> map_of d k \<noteq> None | None \<Rightarrow> False)"

text \<open>A store with no file and no effect performed yet.\<close>

definition empty_store :: store where
  "empty_store = \<lparr>files = (\<lambda>p. None), trace = []\<rparr>"



subsection \<open>Concrete stores\<close>

definition example_urls :: base_urls where
  "example_urls =
     \<lparr>FRONT = ''https://front'', MAIN = ''https://main'', DOVE = ''https://dove'',
      NEST = ''https://nest''\<rparr>"

text \<open>All four files present and of length zero.\<close>

definition blank_store :: store where
  "blank_store = \<lparr>files = (\<lambda>p. Some Blank), trace = []\<rparr>"

text \<open>Only the connected-device file, holding a decodable value that is not a device.\<close>

definition stale_store :: store where
  "stale_store =
     \<lparr>files = (\<lambda>p. None)(Connected_cache \<mapsto> Encoded (VStr ''old'')), trace = []\<rparr>"

text \<open>Only the devices file, in the oldest shape: names mapped to bare addresses.\<close>

definition legacy_store :: store where
  "legacy_store =
     \<lparr>files = (\<lambda>p. None)(Devices_cache \<mapsto>
        Encoded (VDict [(''DEFAULT'', VStr ''z''), (''bar'', VStr ''http://y'')])),
      trace = []\<rparr>"

text \<open>Only the devices file, in the oldest shape and with the default entry alone.\<close>

definition default_only_store :: store where
  "default_only_store =
     \<lparr>files = (\<lambda>p. None)(Devices_cache \<mapsto> Encoded (VDict [(''DEFAULT'', VStr ''z'')])),
      trace = []\<rparr>"


text \<open>Only the devices file, holding one manager in the current shape.\<close>

definition foo_store :: store where
  "foo_store =
     \<lparr>files = (\<lambda>p. None)(Devices_cache \<mapsto>
        Encoded (VDict [(''foo'', VManager \<lparr>name = ''foo'', url = ''http://x''\<rparr>)])),
      trace = []\<rparr>"

section \<open>Properties\<close>

subsection \<open>Effects on the store\<close>

lemma files_write_text: "files (write_text p t s) = (files s)(p \<mapsto> t)"
  by (simp add: write_text_def)

lemma trace_write_text: "trace (write_text p t s) = trace s @ [Wrote p t]"
  by (simp add: write_text_def)

lemma files_unlink: "files (unlink p s) = (files s)(p := None)"
  by (simp add: unlink_def)

lemma trace_unlink: "trace (unlink p s) = trace s @ [Unlinked p]"
  by (simp add: unlink_def)

lemma files_log_warning: "files (log_warning msg s) = files s"
  by (simp add: log_warning_def)

lemma trace_log_warning: "trace (log_warning msg s) = trace s @ [Warned msg]"
  by (simp add: log_warning_def)

lemmas store_simps = files_write_text trace_write_text files_unlink trace_unlink
  files_log_warning trace_log_warning read_text_def json_dumps_def

subsection \<open>Tokens, base URLs and the connected device\<close>

text \<open>
  C9. For every \<^verbatim>\<open>Tokens\<close> value \<open>t\<close> and every store: setting the tokens to \<open>t\<close>
  and reading them returns \<open>t\<close>; setting them to \<^verbatim>\<open>None\<close> and reading returns
  \<^verbatim>\<open>None\<close>, and after that set the tokens file does not exist, whether or not it
  existed before.
\<close>

theorem tokens_set_then_get:
  "tokens_get (tokens_set (Some t) s) = Inr (VTokens t) \<and>
   tokens_get (tokens_set None s) = Inr VNone \<and>
   files (tokens_set None s) Tokens_cache = None"
  by (simp add: tokens_get_def tokens_set_def store_simps)

text \<open>
  C10. A present file of length zero is read like an absent one by the tokens getter
  (\<^verbatim>\<open>None\<close>), by the connected-device getter (\<^verbatim>\<open>None\<close>, the store untouched: no
  warning, no purge) and by the base-URL getter (the built-in default); none of the three
  raises.
\<close>

theorem zero_length_file_reads_as_absent:
  "(files s Tokens_cache = Some Blank \<longrightarrow> tokens_get s = Inr VNone) \<and>
   (files s Connected_cache = Some Blank \<longrightarrow> connected_device_get s = (Inr VNone, s)) \<and>
   (files s Urls_cache = Some Blank \<longrightarrow> base_url_get dflt s = Inr (VBaseURLs dflt))"
  by (simp add: tokens_get_def connected_device_get_def base_url_get_def read_text_def)

theorem zero_length_file_reads_as_absent_witness:
  "files blank_store Tokens_cache = Some Blank \<and>
   files blank_store Connected_cache = Some Blank \<and>
   files blank_store Urls_cache = Some Blank \<and>
   tokens_get blank_store = Inr VNone \<and>
   connected_device_get blank_store = (Inr VNone, blank_store) \<and>
   base_url_get example_urls blank_store = Inr (VBaseURLs example_urls)"
  using zero_length_file_reads_as_absent [of blank_store example_urls]
  by (simp add: blank_store_def)

text \<open>
  C5. When the connected-device file decodes to a value that is not a \<^verbatim>\<open>Device\<close>,
  the read returns that value, adds exactly one warning and one deletion of the
  connected-device file to the trace, leaves the file absent and the other files as they
  were, and the next read returns \<^verbatim>\<open>None\<close> without any further effect.
\<close>

theorem stale_connected_device_is_purged:
  "files s Connected_cache = Some (Encoded v) \<Longrightarrow> \<not> isinstance_Device v \<Longrightarrow>
   fst (connected_device_get s) = Inr v \<and>
   trace (snd (connected_device_get s)) =
     trace s @ [Warned outdated_msg, Unlinked Connected_cache] \<and>
   files (snd (connected_device_get s)) = (files s)(Connected_cache := None) \<and>
   connected_device_get (snd (connected_device_get s)) =
     (Inr VNone, snd (connected_device_get s))"
  by (simp add: connected_device_get_def connected_device_set_def store_simps)

theorem stale_connected_device_is_purged_witness:
  "files stale_store Connected_cache = Some (Encoded (VStr ''old'')) \<and>
   \<not> isinstance_Device (VStr ''old'') \<and>
   fst (connected_device_get stale_store) = Inr (VStr ''old'') \<and>
   trace (snd (connected_device_get stale_store)) =
     [Warned outdated_msg, Unlinked Connected_cache] \<and>
   files (snd (connected_device_get stale_store)) Connected_cache = None \<and>
   fst (connected_device_get (snd (connected_device_get stale_store))) = Inr VNone"
  using stale_connected_device_is_purged [of stale_store "VStr ''old''"]
  by (simp add: stale_store_def)

subsection \<open>Reading the device managers\<close>

lemma base_url_get_default:
  "files s Urls_cache = None \<Longrightarrow> base_url_get dflt s = Inr (VBaseURLs dflt)"
  by (simp add: base_url_get_def read_text_def)

lemma managers_absent:
  "base_url_get dflt s = Inr (VBaseURLs b) \<Longrightarrow> files s Devices_cache = None \<Longrightarrow>
   managers dflt s = (Inr [(''NEST'', VManager \<lparr>name = ''NEST'', url = NEST b\<rparr>)], s)"
  by (simp add: managers_def read_text_def)

lemma managers_dict:
  "base_url_get dflt s = Inr (VBaseURLs b) \<Longrightarrow>
   files s Devices_cache = Some (Encoded (VDict d)) \<Longrightarrow>
   managers dflt s =
     (if migrate d = [] then Inl AssertionError
      else Inr (dict_update [(''NEST'', VManager \<lparr>name = ''NEST'', url = NEST b\<rparr>)]
                  (migrate d)),
      write_text Devices_cache (Encoded (VDict (migrate d))) s)"
  by (simp add: managers_def read_text_def dict_truthy_def json_dumps_def)

text \<open>
  C4. With the devices file holding \<^verbatim>\<open>{"DEFAULT": "z", "bar": "http://y"}\<close> and a
  readable base-URL partition, one call of \<^verbatim>\<open>managers\<close> returns the synthetic
  \<^verbatim>\<open>NEST\<close> entry followed by \<^verbatim>\<open>bar\<close> rebuilt as
  \<^verbatim>\<open>DeviceManager("bar", "http://y")\<close>, and its one effect is to write the devices file
  with exactly the migrated mapping: \<^verbatim>\<open>DEFAULT\<close> gone, \<^verbatim>\<open>bar\<close> rebuilt.
\<close>

theorem legacy_mapping_is_migrated:
  "base_url_get dflt s = Inr (VBaseURLs b) \<Longrightarrow>
   files s Devices_cache =
     Some (Encoded (VDict [(''DEFAULT'', VStr ''z''), (''bar'', VStr ''http://y'')])) \<Longrightarrow>
   managers dflt s =
     (Inr [(''NEST'', VManager \<lparr>name = ''NEST'', url = NEST b\<rparr>),
           (''bar'', VManager \<lparr>name = ''bar'', url = ''http://y''\<rparr>)],
      write_text Devices_cache
        (Encoded (VDict [(''bar'', VManager \<lparr>name = ''bar'', url = ''http://y''\<rparr>)])) s)"
  by (simp add: managers_dict migrate_def dict_pop_default_def dict_update_def
      dict_setitem_def AList.delete_eq)

theorem legacy_mapping_is_migrated_witness:
  "base_url_get example_urls legacy_store = Inr (VBaseURLs example_urls) \<and>
   fst (managers example_urls legacy_store) =
     Inr [(''NEST'', VManager \<lparr>name = ''NEST'', url = ''https://nest''\<rparr>),
          (''bar'', VManager \<lparr>name = ''bar'', url = ''http://y''\<rparr>)] \<and>
   files (snd (managers example_urls legacy_store)) Devices_cache =
     Some (Encoded (VDict [(''bar'', VManager \<lparr>name = ''bar'', url = ''http://y''\<rparr>)]))"
proof -
  have u: "base_url_get example_urls legacy_store = Inr (VBaseURLs example_urls)"
    by (simp add: base_url_get_default legacy_store_def)
  have f: "files legacy_store Devices_cache =
     Some (Encoded (VDict [(''DEFAULT'', VStr ''z''), (''bar'', VStr ''http://y'')]))"
    by (simp add: legacy_store_def)
  show ?thesis
    using u legacy_mapping_is_migrated [OF u f]
    by (simp add: files_write_text example_urls_def)
qed

text \<open>
  C6. When the devices file holds a mapping whose migration is empty, \<^verbatim>\<open>managers\<close>
  raises: it never returns a view. With a readable base-URL partition the exception is the
  \<^verbatim>\<open>AssertionError\<close> of line 85.
\<close>

theorem empty_migration_raises:
  "files s Devices_cache = Some (Encoded (VDict d)) \<Longrightarrow> migrate d = [] \<Longrightarrow>
   (\<exists>e. fst (managers dflt s) = Inl e) \<and>
   (\<forall>b. base_url_get dflt s = Inr (VBaseURLs b) \<longrightarrow>
        fst (managers dflt s) = Inl AssertionError)"
  by (auto simp add: managers_def read_text_def dict_truthy_def
      split: sum.splits prod.splits)

theorem empty_migration_raises_witness:
  "files default_only_store Devices_cache =
     Some (Encoded (VDict [(''DEFAULT'', VStr ''z'')])) \<and>
   migrate [(''DEFAULT'', VStr ''z'')] = [] \<and>
   base_url_get example_urls default_only_store = Inr (VBaseURLs example_urls) \<and>
   fst (managers example_urls default_only_store) = Inl AssertionError"
proof -
  have f: "files default_only_store Devices_cache =
      Some (Encoded (VDict [(''DEFAULT'', VStr ''z'')]))"
    by (simp add: default_only_store_def)
  have m: "migrate [(''DEFAULT'', VStr ''z'')] = []"
    by (simp add: migrate_def dict_pop_default_def AList.delete_eq)
  have u: "base_url_get example_urls default_only_store = Inr (VBaseURLs example_urls)"
    by (simp add: base_url_get_default default_only_store_def)
  show ?thesis
    using f m u empty_migration_raises [OF f m, of example_urls] by simp
qed

subsection \<open>Dictionaries and the migration\<close>

lemma fst_rebuild_entry: "fst (rebuild_entry p) = fst p"
  by (cases p rule: rebuild_entry.cases) simp_all

lemma keys_rebuild: "map fst (map rebuild_entry d) = map fst d"
  by (simp add: fst_rebuild_entry)

lemma keys_migrate:
  "fst ` set (migrate d) = fst ` set d - {''DEFAULT'', ''NEST''}"
proof -
  have "set (map fst (migrate d)) = set (map fst d) - {''DEFAULT'', ''NEST''}"
    unfolding migrate_def dict_pop_default_def keys_rebuild
    by (auto simp add: AList.delete_keys)
  then show ?thesis by simp
qed

lemma map_of_None_keys: "(map_of d k = None) = (k \<notin> fst ` set d)"
  by (simp add: map_of_eq_None_iff)

lemma keys_dict_update:
  "fst ` set (dict_update r c) = fst ` set r \<union> fst ` set c"
proof (induction c arbitrary: r)
  case Nil
  show ?case by (simp add: dict_update_def)
next
  case (Cons p c)
  have "dict_update r (p # c) = dict_update (dict_setitem (fst p) (snd p) r) c"
    by (simp add: dict_update_def case_prod_beta)
  then show ?case
    using Cons.IH [of "dict_setitem (fst p) (snd p) r"]
    by (auto simp add: dict_setitem_def AList.dom_update)
qed

lemma distinct_dict_update:
  "distinct (map fst r) \<Longrightarrow> distinct (map fst (dict_update r c))"
proof (induction c arbitrary: r)
  case Nil
  then show ?case by (simp add: dict_update_def)
next
  case (Cons p c)
  have "dict_update r (p # c) = dict_update (dict_setitem (fst p) (snd p) r) c"
    by (simp add: dict_update_def case_prod_beta)
  then show ?case
    using Cons.IH [of "dict_setitem (fst p) (snd p) r"] Cons.prems
    by (simp add: dict_setitem_def AList.distinct_update)
qed

lemma map_of_dict_update:
  "distinct (map fst c) \<Longrightarrow> map_of (dict_update r c) = map_of r ++ map_of c"
proof (induction c arbitrary: r)
  case Nil
  show ?case by (simp add: dict_update_def)
next
  case (Cons p c)
  obtain k v where p: "p = (k, v)" by (cases p)
  have k: "map_of c k = None"
    using Cons.prems p by (simp add: map_of_None_keys)
  have d: "distinct (map fst c)"
    using Cons.prems by simp
  have unfold: "dict_update r (p # c) = dict_update (dict_setitem k v r) c"
    by (simp add: dict_update_def p)
  have upd: "map_of (dict_setitem k v r) = (map_of r)(k \<mapsto> v)"
    by (simp add: dict_setitem_def AList.update_conv')
  have "map_of (dict_update r (p # c)) = (map_of r)(k \<mapsto> v) ++ map_of c"
    unfolding unfold Cons.IH [OF d] upd ..
  also have "\<dots> = map_of r ++ map_of (p # c)"
    using k by (auto simp add: p fun_eq_iff map_add_def split: option.splits)
  finally show ?case .
qed

lemma map_of_rebuild:
  "map_of (map rebuild_entry d) k =
     (case map_of d k of None \<Rightarrow> None | Some v \<Rightarrow> Some (snd (rebuild_entry (k, v))))"
proof (induction d)
  case Nil
  show ?case by simp
next
  case (Cons p d)
  obtain k' v' where p: "p = (k', v')" by (cases p)
  obtain x where x: "rebuild_entry (k', v') = (k', x)"
    by (cases "(k', v')" rule: rebuild_entry.cases) simp_all
  show ?case
    using Cons.IH by (simp add: p x)
qed

subsection \<open>What a call of the managers getter does\<close>

lemma attr_NEST_Inr: "attr_NEST bu = Inr nest \<Longrightarrow> \<exists>b. bu = VBaseURLs b \<and> nest = NEST b"
  by (cases bu) simp_all

lemma backward_compatibility_store:
  "snd (backward_compatibility v s) = s \<or>
   (\<exists>d. v = VDict d \<and>
        backward_compatibility v s =
          (Inr (migrate d), write_text Devices_cache (Encoded (VDict (migrate d))) s))"
  by (cases v) (simp_all add: json_dumps_def)

lemma json_loads_Inr: "json_loads t = Inr v \<Longrightarrow> t = Encoded v"
  by (cases t) simp_all

lemma managers_store:
  "snd (managers dflt s) = s \<or>
   (\<exists>d. files s Devices_cache = Some (Encoded (VDict d)) \<and>
        snd (managers dflt s) = write_text Devices_cache (Encoded (VDict (migrate d))) s)"
proof (cases "base_url_get dflt s")
  case (Inl e)
  then show ?thesis by (simp add: managers_def)
next
  case (Inr bu)
  show ?thesis
  proof (cases "attr_NEST bu")
    case (Inl e)
    then show ?thesis using Inr by (simp add: managers_def)
  next
    case nest: (Inr nest)
    show ?thesis
    proof (cases "files s Devices_cache")
      case None
      then show ?thesis using Inr nest by (simp add: managers_def read_text_def)
    next
      case (Some t)
      show ?thesis
      proof (cases "json_loads t")
        case (Inl e)
        then show ?thesis using Inr nest Some by (simp add: managers_def read_text_def)
      next
        case dec: (Inr v)
        have t: "t = Encoded v" using dec by (rule json_loads_Inr)
        have m: "snd (managers dflt s) = snd (backward_compatibility v s)"
          using Inr nest Some dec
          by (simp add: managers_def read_text_def split: prod.splits sum.splits)
        show ?thesis
          using backward_compatibility_store [of v s] m Some t by auto
      qed
    qed
  qed
qed

lemma managers_returns:
  assumes "managers dflt s = (Inr view, s')"
  shows "\<exists>b. base_url_get dflt s = Inr (VBaseURLs b) \<and>
           ((files s Devices_cache = None \<and> s' = s \<and>
             view = [(''NEST'', VManager \<lparr>name = ''NEST'', url = NEST b\<rparr>)]) \<or>
            (\<exists>d. files s Devices_cache = Some (Encoded (VDict d)) \<and> migrate d \<noteq> [] \<and>
                 s' = write_text Devices_cache (Encoded (VDict (migrate d))) s \<and>
                 view = dict_update [(''NEST'', VManager \<lparr>name = ''NEST'', url = NEST b\<rparr>)]
                          (migrate d)))"
proof (cases "base_url_get dflt s")
  case (Inl e)
  then show ?thesis using assms by (simp add: managers_def)
next
  case (Inr bu)
  show ?thesis
  proof (cases "attr_NEST bu")
    case (Inl e)
    then show ?thesis using Inr assms by (simp add: managers_def)
  next
    case nest: (Inr nest)
    obtain b where b: "bu = VBaseURLs b" "nest = NEST b"
      using attr_NEST_Inr [OF nest] by blast
    show ?thesis
    proof (cases "files s Devices_cache")
      case None
      then show ?thesis
        using managers_absent [of dflt s b] Inr b assms by simp
    next
      case (Some t)
      show ?thesis
      proof (cases t)
        case Blank
        then show ?thesis using Inr nest Some assms by (simp add: managers_def read_text_def)
      next
        case Malformed
        then show ?thesis using Inr nest Some assms by (simp add: managers_def read_text_def)
      next
        case (Encoded v)
        show ?thesis
        proof (cases v)
          case (VDict d)
          then show ?thesis
            using managers_dict [of dflt s b d] Inr b Some Encoded assms
            by (auto split: if_splits)
        qed (use Inr nest Some Encoded assms in
              \<open>simp_all add: managers_def read_text_def\<close>)
      qed
    qed
  qed
qed

lemma map_of_migrate:
  "map_of (migrate d) k =
     (if k = ''DEFAULT'' \<or> k = ''NEST'' then None
      else case map_of d k of None \<Rightarrow> None | Some v \<Rightarrow> Some (snd (rebuild_entry (k, v))))"
  by (simp add: migrate_def dict_pop_default_def map_of_rebuild AList.delete_conv)

lemma distinct_migrate: "distinct (map fst d) \<Longrightarrow> distinct (map fst (migrate d))"
  unfolding migrate_def dict_pop_default_def keys_rebuild
  by (simp add: AList.distinct_delete)

lemma map_of_dict_update_other:
  "map_of c k = None \<Longrightarrow> map_of (dict_update r c) k = map_of r k"
proof (induction c arbitrary: r)
  case Nil
  show ?case by (simp add: dict_update_def)
next
  case (Cons p c)
  obtain k' v where p: "p = (k', v)" by (cases p)
  have ne: "k' \<noteq> k" and rest: "map_of c k = None"
    using Cons.prems by (auto simp add: p split: if_splits)
  have "dict_update r (p # c) = dict_update (dict_setitem k' v r) c"
    by (simp add: dict_update_def p)
  then show ?case
    using Cons.IH [OF rest, of "dict_setitem k' v r"] ne
    by (simp add: dict_setitem_def AList.update_conv')
qed

lemma managers_view:
  assumes "managers dflt s = (Inr view, s')"
  shows "distinct (map fst view)"
    and "map_of view ''DEFAULT'' = None"
    and "\<exists>b. base_url_get dflt s = Inr (VBaseURLs b) \<and>
             map_of view ''NEST'' = Some (VManager \<lparr>name = ''NEST'', url = NEST b\<rparr>)"
proof -
  obtain b where b: "base_url_get dflt s = Inr (VBaseURLs b)"
    and v: "view = [(''NEST'', VManager \<lparr>name = ''NEST'', url = NEST b\<rparr>)] \<or>
            (\<exists>d. view = dict_update [(''NEST'', VManager \<lparr>name = ''NEST'', url = NEST b\<rparr>)]
                          (migrate d))"
    using managers_returns [OF assms] by blast
  show "distinct (map fst view)"
    using v by (auto simp add: distinct_dict_update)
  have "''DEFAULT'' \<notin> fst ` set view"
    using v by (elim disjE exE) (simp_all add: keys_dict_update keys_migrate)
  then show "map_of view ''DEFAULT'' = None"
    by (simp add: map_of_None_keys)
  have "map_of view ''NEST'' = Some (VManager \<lparr>name = ''NEST'', url = NEST b\<rparr>)"
    using v by (auto simp add: map_of_dict_update_other map_of_migrate)
  then show "\<exists>b. base_url_get dflt s = Inr (VBaseURLs b) \<and>
             map_of view ''NEST'' = Some (VManager \<lparr>name = ''NEST'', url = NEST b\<rparr>)"
    using b by blast
qed

subsection \<open>Keys of the stored mapping\<close>

lemma on_disk_key_write:
  "on_disk_key k (write_text Devices_cache (Encoded (VDict d)) s) = (map_of d k \<noteq> None)"
  by (simp add: on_disk_key_def stored_managers_def files_write_text)




lemma managers_strips:
  "managers dflt s = (Inr view, s') \<Longrightarrow>
   \<not> on_disk_key ''NEST'' s' \<and> \<not> on_disk_key ''DEFAULT'' s'"
proof -
  assume "managers dflt s = (Inr view, s')"
  then have "(files s Devices_cache = None \<and> s' = s) \<or>
      (\<exists>d. s' = write_text Devices_cache (Encoded (VDict (migrate d))) s)"
    using managers_returns [of dflt s view s'] by blast
  then show ?thesis
  proof
    assume "files s Devices_cache = None \<and> s' = s"
    then show ?thesis by (simp add: on_disk_key_def stored_managers_def)
  next
    assume "\<exists>d. s' = write_text Devices_cache (Encoded (VDict (migrate d))) s"
    then show ?thesis by (auto simp add: on_disk_key_write map_of_migrate)
  qed
qed

lemma dict_pop_Inr: "dict_pop k d = Inr d' \<Longrightarrow> d' = AList.delete k d"
  by (simp add: dict_pop_def split: if_splits)

lemma add_manager_store:
  "(\<exists>e. add_manager dflt m s = (Inl e, snd (managers dflt s))) \<or>
   (\<exists>view. fst (managers dflt s) = Inr view \<and>
      add_manager dflt m s =
        (Inr (), write_text Devices_cache
           (Encoded (VDict (AList.delete ''NEST'' (AList.update (name m) (VManager m) view))))
           (snd (managers dflt s))))"
  by (auto simp add: add_manager_def dict_setitem_def json_dumps_def
      split: prod.splits sum.splits dest: dict_pop_Inr)
















subsection \<open>Adding a manager\<close>

lemma managers_keeps_urls:
  "files (snd (managers dflt s)) Urls_cache = files s Urls_cache"
  using managers_store [of dflt s] by (auto simp add: files_write_text)

lemma base_url_get_cong:
  "files s' Urls_cache = files s Urls_cache \<Longrightarrow> base_url_get dflt s' = base_url_get dflt s"
  by (simp add: base_url_get_def read_text_def)

text \<open>
  C8, as amended. For every \<^verbatim>\<open>DeviceManager\<close> \<open>m\<close> whose name is neither
  \<^verbatim>\<open>NEST\<close> nor \<^verbatim>\<open>DEFAULT\<close>: when \<^verbatim>\<open>add_manager(m)\<close> returns normally, the
  following \<^verbatim>\<open>managers\<close> call returns a view that maps the name of \<open>m\<close> to \<open>m\<close> and
  \<^verbatim>\<open>NEST\<close> to the entry rederived from the current base URLs, while the mapping in the
  devices file, before and after that read, contains the name of \<open>m\<close> and not the key
  \<^verbatim>\<open>NEST\<close>.
\<close>

theorem add_manager_then_managers:
  assumes "name m \<noteq> ''NEST''" and "name m \<noteq> ''DEFAULT''"
    and "add_manager dflt m s = (Inr (), s1)"
  shows "(\<exists>b view. base_url_get dflt s1 = Inr (VBaseURLs b) \<and>
            fst (managers dflt s1) = Inr view \<and>
            map_of view (name m) = Some (VManager m) \<and>
            map_of view ''NEST'' = Some (VManager \<lparr>name = ''NEST'', url = NEST b\<rparr>)) \<and>
         (\<exists>d. stored_managers s1 = Some d \<and> map_of d (name m) = Some (VManager m) \<and>
              map_of d ''NEST'' = None) \<and>
         on_disk_key (name m) (snd (managers dflt s1)) \<and>
         \<not> on_disk_key ''NEST'' (snd (managers dflt s1))"
proof -
  obtain view0 where v0: "fst (managers dflt s) = Inr view0"
    and s1: "s1 = write_text Devices_cache
        (Encoded (VDict (AList.delete ''NEST'' (AList.update (name m) (VManager m) view0))))
        (snd (managers dflt s))"
    using add_manager_store [of dflt m s] assms(3) by auto
  define d where "d = AList.delete ''NEST'' (AList.update (name m) (VManager m) view0)"
  have m0: "managers dflt s = (Inr view0, snd (managers dflt s))"
    using v0 by (metis prod.collapse)
  obtain b where b: "base_url_get dflt s = Inr (VBaseURLs b)"
    using managers_view(3) [OF m0] by blast
  have "files s1 Urls_cache = files s Urls_cache"
    by (simp add: s1 files_write_text managers_keeps_urls)
  then have b1: "base_url_get dflt s1 = Inr (VBaseURLs b)"
    using b base_url_get_cong [of s1 s dflt] by simp
  have f1: "files s1 Devices_cache = Some (Encoded (VDict d))"
    by (simp add: s1 d_def files_write_text)
  have dm: "map_of d (name m) = Some (VManager m)"
    using assms(1) by (simp add: d_def AList.delete_conv AList.update_conv')
  have dn: "map_of d ''NEST'' = None"
    by (simp add: d_def AList.delete_conv)
  have dist: "distinct (map fst (migrate d))"
    unfolding d_def
    by (intro distinct_migrate AList.distinct_delete AList.distinct_update
        managers_view(1) [OF m0])
  have mm: "map_of (migrate d) (name m) = Some (VManager m)"
    using assms(1,2) dm by (simp add: map_of_migrate)
  have mn: "map_of (migrate d) ''NEST'' = None"
    by (simp add: map_of_migrate)
  have ne: "migrate d \<noteq> []"
    using mm by auto
  define view where
    "view = dict_update [(''NEST'', VManager \<lparr>name = ''NEST'', url = NEST b\<rparr>)] (migrate d)"
  have m1: "managers dflt s1 =
      (Inr view, write_text Devices_cache (Encoded (VDict (migrate d))) s1)"
    using managers_dict [OF b1 f1] ne by (simp add: view_def)
  have vmap: "map_of view =
      map_of [(''NEST'', VManager \<lparr>name = ''NEST'', url = NEST b\<rparr>)] ++ map_of (migrate d)"
    unfolding view_def by (rule map_of_dict_update [OF dist])
  have vm: "map_of view (name m) = Some (VManager m)"
    using mm by (simp add: vmap)
  have vn: "map_of view ''NEST'' = Some (VManager \<lparr>name = ''NEST'', url = NEST b\<rparr>)"
    using mn by (simp add: vmap map_add_def)
  have view_part: "\<exists>b view. base_url_get dflt s1 = Inr (VBaseURLs b) \<and>
            fst (managers dflt s1) = Inr view \<and>
            map_of view (name m) = Some (VManager m) \<and>
            map_of view ''NEST'' = Some (VManager \<lparr>name = ''NEST'', url = NEST b\<rparr>)"
    using b1 m1 vm vn by auto
  have disk_part: "\<exists>d. stored_managers s1 = Some d \<and> map_of d (name m) = Some (VManager m) \<and>
              map_of d ''NEST'' = None"
    using f1 dm dn by (simp add: stored_managers_def)
  have after: "on_disk_key (name m) (snd (managers dflt s1))"
    "\<not> on_disk_key ''NEST'' (snd (managers dflt s1))"
    using mm mn by (simp_all add: m1 on_disk_key_write)
  show ?thesis
    by (intro conjI view_part disk_part after)
qed

theorem add_manager_then_managers_witness:
  "fst (add_manager example_urls \<lparr>name = ''foo'', url = ''http://x''\<rparr> empty_store) = Inr () \<and>
   fst (managers example_urls
          (snd (add_manager example_urls \<lparr>name = ''foo'', url = ''http://x''\<rparr> empty_store))) =
     Inr [(''NEST'', VManager \<lparr>name = ''NEST'', url = ''https://nest''\<rparr>),
          (''foo'', VManager \<lparr>name = ''foo'', url = ''http://x''\<rparr>)] \<and>
   on_disk_key ''foo''
     (snd (add_manager example_urls \<lparr>name = ''foo'', url = ''http://x''\<rparr> empty_store)) \<and>
   \<not> on_disk_key ''NEST''
     (snd (add_manager example_urls \<lparr>name = ''foo'', url = ''http://x''\<rparr> empty_store))"
proof -
  define m where "m = \<lparr>name = ''foo'', url = ''http://x''\<rparr>"
  define s1 where "s1 = write_text Devices_cache (Encoded (VDict [(''foo'', VManager m)])) empty_store"
  have a: "add_manager example_urls m empty_store = (Inr (), s1)"
    by (simp add: add_manager_def managers_def base_url_get_def read_text_def
        empty_store_def dict_setitem_def dict_pop_def json_dumps_def AList.delete_eq
        s1_def m_def)
  have n: "name m \<noteq> ''NEST''" "name m \<noteq> ''DEFAULT''"
    by (simp_all add: m_def)
  have v: "fst (managers example_urls s1) =
     Inr [(''NEST'', VManager \<lparr>name = ''NEST'', url = ''https://nest''\<rparr>), (''foo'', VManager m)]"
    by (simp add: managers_def base_url_get_def read_text_def s1_def files_write_text
        empty_store_def example_urls_def migrate_def dict_pop_default_def AList.delete_eq
        dict_truthy_def dict_update_def dict_setitem_def m_def)
  have "on_disk_key ''foo'' s1 \<and> \<not> on_disk_key ''NEST'' s1"
    using add_manager_then_managers [OF n a]
    by (auto simp add: on_disk_key_def m_def)
  then show ?thesis
    using a v by (simp add: m_def)
qed

text \<open>
  The claim C8 as stated fails for a manager named \<^verbatim>\<open>NEST\<close>: \<^verbatim>\<open>add_manager\<close>
  returns normally, but the devices file does not contain the manager's name and the view
  maps \<^verbatim>\<open>NEST\<close> to the synthetic entry, not to the manager that was added.
\<close>

theorem reserved_name_is_not_stored:
  "fst (add_manager example_urls \<lparr>name = ''NEST'', url = ''http://other''\<rparr> foo_store) = Inr () \<and>
   \<not> on_disk_key ''NEST''
     (snd (add_manager example_urls \<lparr>name = ''NEST'', url = ''http://other''\<rparr> foo_store)) \<and>
   fst (managers example_urls
          (snd (add_manager example_urls \<lparr>name = ''NEST'', url = ''http://other''\<rparr> foo_store))) =
     Inr [(''NEST'', VManager \<lparr>name = ''NEST'', url = ''https://nest''\<rparr>),
          (''foo'', VManager \<lparr>name = ''foo'', url = ''http://x''\<rparr>)]"
  by (simp add: add_manager_def managers_def base_url_get_def read_text_def
      foo_store_def example_urls_def migrate_def dict_pop_default_def AList.delete_eq
      dict_truthy_def dict_update_def dict_setitem_def dict_pop_def json_dumps_def
      files_write_text write_text_def on_disk_key_def stored_managers_def)

subsection \<open>Writing back on read\<close>







subsection \<open>The empty mapping\<close>

text \<open>
  C2. The devices file can hold an empty mapping. With only the legacy default entry
  stored, \<^verbatim>\<open>_backward_compatibility\<close> writes the migrated, empty mapping (line 73)
  before the assertion of line 85 fails, so the failed read leaves an empty object in the
  file. \<^verbatim>\<open>add_manager\<close> of a manager named \<^verbatim>\<open>NEST\<close> on a store without files
  also writes an empty object: line 98 writes whatever remains.
\<close>

theorem empty_mapping_is_written:
  "managers dflt default_only_store =
     (Inl AssertionError, write_text Devices_cache (Encoded (VDict [])) default_only_store) \<and>
   stored_managers (snd (managers dflt default_only_store)) = Some [] \<and>
   stored_managers
     (snd (add_manager dflt \<lparr>name = ''NEST'', url = ''http://n''\<rparr> empty_store)) = Some []"
proof -
  have f: "files default_only_store Devices_cache =
      Some (Encoded (VDict [(''DEFAULT'', VStr ''z'')]))"
    by (simp add: default_only_store_def)
  have m: "migrate [(''DEFAULT'', VStr ''z'')] = []"
    by (simp add: migrate_def dict_pop_default_def AList.delete_eq)
  have u: "base_url_get dflt default_only_store = Inr (VBaseURLs dflt)"
    by (simp add: base_url_get_default default_only_store_def)
  have r: "managers dflt default_only_store =
     (Inl AssertionError, write_text Devices_cache (Encoded (VDict [])) default_only_store)"
    using managers_dict [OF u f] m by simp
  have a: "stored_managers
     (snd (add_manager dflt \<lparr>name = ''NEST'', url = ''http://n''\<rparr> empty_store)) = Some []"
    by (simp add: add_manager_def managers_def base_url_get_def read_text_def
        empty_store_def dict_setitem_def dict_pop_def json_dumps_def AList.delete_eq
        stored_managers_def files_write_text)
  show ?thesis
    using r a by (simp add: stored_managers_def files_write_text)
qed

subsection \<open>Removing a manager\<close>

lemma remove_manager_after_read:
  "managers dflt s = (Inr view, s') \<Longrightarrow>
   remove_manager dflt ''NEST'' s = (Inl (KeyError ''NEST''), s') \<and>
   (nm \<noteq> ''NEST'' \<longrightarrow> fst (remove_manager dflt nm s) = Inr ())"
proof -
  assume m: "managers dflt s = (Inr view, s')"
  have n: "map_of view ''NEST'' \<noteq> None"
    using managers_view(3) [OF m] by auto
  have a: "remove_manager dflt ''NEST'' s = (Inl (KeyError ''NEST''), s')"
    by (simp add: remove_manager_def m dict_pop_def dict_pop_default_def AList.delete_conv)
  have b: "fst (remove_manager dflt nm s) = Inr ()" if "nm \<noteq> ''NEST''"
    using that n
    by (simp add: remove_manager_def m dict_pop_def dict_pop_default_def AList.delete_conv)
  show ?thesis
    using a b by blast
qed

text \<open>
  C1. On a store without files, \<^verbatim>\<open>remove_manager("NEST")\<close> raises
  \<^verbatim>\<open>KeyError\<close>: line 107 has already dropped the synthetic entry when line 108 pops
  \<^verbatim>\<open>NEST\<close> without a default. Removing a name that is absent and is not
  \<^verbatim>\<open>NEST\<close> returns normally.
\<close>

theorem remove_NEST_raises_KeyError:
  "remove_manager dflt ''NEST'' empty_store = (Inl (KeyError ''NEST''), empty_store) \<and>
   fst (remove_manager dflt ''foo'' empty_store) = Inr ()"
proof -
  have u: "base_url_get dflt empty_store = Inr (VBaseURLs dflt)"
    by (simp add: base_url_get_default empty_store_def)
  have f: "files empty_store Devices_cache = None"
    by (simp add: empty_store_def)
  show ?thesis
    using remove_manager_after_read [OF managers_absent [OF u f], of "''foo''"] by simp
qed

end
